theory Spec2Isabelle
  imports Complex_Main "HOL-Library.Sublist"
begin

section \<open>AIS forwarder: the connection manager\<close>

text \<open>
  The source is \<^verbatim>\<open>src/ais_forwarder.py\<close>. Class \<^verbatim>\<open>SocketManager\<close> (the spec's
  ConnectionManager) is embedded as a record with one field per attribute, and each method
  as a function from the state before the call to the way the call ends, the state after
  it and the effects it had on the outside world, in order.

  Time stamps and delays are Python floats, modelled as the reals they denote. Every delay
  the code can compute is \<open>5 * 1.5 ^ k\<close> for \<open>k \<le> 6\<close>, or \<open>60\<close>, and these are exact in
  binary floating point, so no rounding enters the backoff arithmetic. The subtraction
  \<^verbatim>\<open>current_time - self.last_attempt\<close> is a float subtraction and does round: for the
  floats written \<^verbatim>\<open>5.1\<close> and \<^verbatim>\<open>0.1\<close> it gives \<^verbatim>\<open>5.0\<close>, more than their difference. The
  model does not compute it with \<open>-\<close> on the reals; it takes the floating-point
  subtraction as a function \<open>float_sub\<close> of the platform, about which nothing is assumed, so
  that what is proved holds of the difference as the code computes it.
\<close>

type_synonym bytes = string
type_synonym sock = nat  \<comment> \<open>the identity of a socket object\<close>

definition MAX_QUEUE_SIZE :: nat where "MAX_QUEUE_SIZE = 1000"
definition SOCKET_TIMEOUT :: real where "SOCKET_TIMEOUT = 5"
definition RECONNECT_DELAY :: real where "RECONNECT_DELAY = 5"
definition BACKOFF_FACTOR :: real where "BACKOFF_FACTOR = 1.5"
definition MAX_BACKOFF_DELAY :: real where "MAX_BACKOFF_DELAY = 60"

datatype level = DEBUG | INFO | WARNING | ERROR

datatype thread = Thread string

text \<open>What a call does to the outside world: socket calls, the serial close, thread joins
  and log lines (the static part of each message).\<close>

datatype effect =
    SockClose sock
  | SockCreate sock
  | SockSettimeout sock real
  | SockConnect sock string int
  | SockSendall sock bytes
  | SerialClose
  | ThreadJoin thread real
  | Logging level string

fun is_sock_op :: "effect \<Rightarrow> bool" where
  "is_sock_op (SockClose k) = True"
| "is_sock_op (SockCreate k) = True"
| "is_sock_op (SockSettimeout k t) = True"
| "is_sock_op (SockConnect k h p) = True"
| "is_sock_op (SockSendall k d) = True"
| "is_sock_op SerialClose = False"
| "is_sock_op (ThreadJoin th t) = False"
| "is_sock_op (Logging l m) = False"

fun is_connect_op :: "effect \<Rightarrow> bool" where
  "is_connect_op (SockConnect k h p) = True"
| "is_connect_op (SockClose k) = False"
| "is_connect_op (SockCreate k) = False"
| "is_connect_op (SockSettimeout k t) = False"
| "is_connect_op (SockSendall k d) = False"
| "is_connect_op SerialClose = False"
| "is_connect_op (ThreadJoin th t) = False"
| "is_connect_op (Logging l m) = False"

text \<open>
  How a call ends. \<open>Blocked\<close> is a call that never returns: it waits for
  \<^verbatim>\<open>socket_lock\<close>, a \<^verbatim>\<open>threading.Lock\<close>, which is not reentrant, while the lock is held
  and nothing will release it.
\<close>

datatype exn = AttributeError | OtherException

datatype 'a outcome = Return 'a | Raise exn | Blocked

record SocketManager =
  host :: string
  port :: int
  max_retries :: int
  socket :: "sock option"
  socket_lock :: bool  \<comment> \<open>True while the lock is held\<close>
  connected :: bool
  last_attempt :: real
  backoff_delay :: real

definition SocketManager_init :: "string \<Rightarrow> int \<Rightarrow> int \<Rightarrow> SocketManager" where
  "SocketManager_init h p r =
     \<lparr> host = h, port = p, max_retries = r, socket = None, socket_lock = False,
       connected = False, last_attempt = 0, backoff_delay = RECONNECT_DELAY \<rparr>"

text \<open>
  What the environment gives during one call: the clock, the floating-point subtraction,
  the socket object that
  \<^verbatim>\<open>socket.socket()\<close> returns, how \<^verbatim>\<open>socket.connect\<close> ends (it returns, raises
  \<^verbatim>\<open>socket.error\<close>, or raises something else, as \<^verbatim>\<open>OverflowError\<close> for a port beyond
  65535) and whether \<^verbatim>\<open>sendall\<close> returns or raises \<^verbatim>\<open>socket.error\<close>. Closing a socket,
  creating one and setting its timeout are local calls, taken to succeed inside
  \<^verbatim>\<open>connect\<close>.
\<close>

datatype conn_result = ConnOk | ConnSocketError | ConnOtherException

record env =
  now :: real
  float_sub :: "real \<Rightarrow> real \<Rightarrow> real"
  fresh :: sock
  conn :: conn_result
  sendall_ok :: bool

type_synonym 'a call = "'a outcome \<times> SocketManager \<times> effect list"

text \<open>\<^verbatim>\<open>with self.socket_lock:\<close> around a body. Acquiring a held lock blocks; the lock is
  released when the body returns or raises, and stays held when the body itself never
  returns. A call is one step of the model, so between calls the lock is free unless a call
  that never returns has left it held.\<close>

definition with_lock :: "(SocketManager \<Rightarrow> 'a call) \<Rightarrow> SocketManager \<Rightarrow> 'a call" where
  "with_lock body s =
     (if socket_lock s then (Blocked, s, [])
      else (case body (s\<lparr>socket_lock := True\<rparr>) of
              (Blocked, s', effs) \<Rightarrow> (Blocked, s', effs)
            | (r, s', effs) \<Rightarrow> (r, s'\<lparr>socket_lock := False\<rparr>, effs)))"

text \<open>The \<^verbatim>\<open>except socket.error\<close> branch of \<^verbatim>\<open>connect\<close> (lines 187-192).\<close>

definition connect_failed :: "SocketManager \<Rightarrow> effect list \<Rightarrow> bool call" where
  "connect_failed s effs =
     (Return False,
      s\<lparr>backoff_delay := min (backoff_delay s * BACKOFF_FACTOR) MAX_BACKOFF_DELAY,
        connected := False\<rparr>,
      effs @ [Logging WARNING ''Failed to connect''])"

text \<open>The body of \<^verbatim>\<open>connect\<close> under the lock (lines 162-192).\<close>

definition connect_body :: "env \<Rightarrow> SocketManager \<Rightarrow> bool call" where
  "connect_body e s =
     (if connected s then (Return True, s, [])
      else
        let current_time = now e;
            time_since_last_attempt = float_sub e current_time (last_attempt s)
        in if time_since_last_attempt < backoff_delay s then (Return False, s, [])
           else
             let s1 = s\<lparr>last_attempt := current_time\<rparr>;
                 stale = (case socket s1 of None \<Rightarrow> [] | Some k \<Rightarrow> [SockClose k]);
                 s2 = s1\<lparr>socket := Some (fresh e)\<rparr>;
                 effs = stale @ [SockCreate (fresh e),
                                 SockSettimeout (fresh e) SOCKET_TIMEOUT,
                                 SockConnect (fresh e) (host s2) (port s2)]
             in (case conn e of
                   ConnOk \<Rightarrow>
                     (Return True,
                      s2\<lparr>connected := True, backoff_delay := RECONNECT_DELAY\<rparr>,
                      effs @ [Logging INFO ''Connected''])
                 | ConnSocketError \<Rightarrow> connect_failed s2 effs
                 | ConnOtherException \<Rightarrow> (Raise OtherException, s2, effs)))"

definition connect :: "env \<Rightarrow> SocketManager \<Rightarrow> bool call" where
  "connect e = with_lock (connect_body e)"

text \<open>\<^verbatim>\<open>send\<close> (lines 204-214). The condition \<^verbatim>\<open>not self.connected and not self.connect()\<close>
  calls \<^verbatim>\<open>connect\<close> only when the manager is not connected, and calls it with the lock
  already held by \<^verbatim>\<open>send\<close> itself. \<^verbatim>\<open>self.socket.sendall\<close> on \<^verbatim>\<open>None\<close> raises
  \<^verbatim>\<open>AttributeError\<close>, which \<^verbatim>\<open>except socket.error\<close> does not catch.\<close>

definition send_body :: "env \<Rightarrow> bytes \<Rightarrow> SocketManager \<Rightarrow> bool call" where
  "send_body e data s =
     (case (if \<not> connected s then connect e s else (Return True, s, [])) of
        (Blocked, s1, effs1) \<Rightarrow> (Blocked, s1, effs1)
      | (Raise x, s1, effs1) \<Rightarrow> (Raise x, s1, effs1)
      | (Return False, s1, effs1) \<Rightarrow> (Return False, s1, effs1)
      | (Return True, s1, effs1) \<Rightarrow>
          (case socket s1 of
             None \<Rightarrow> (Raise AttributeError, s1, effs1)
           | Some k \<Rightarrow>
               if sendall_ok e then (Return True, s1, effs1 @ [SockSendall k data])
               else (Return False, s1\<lparr>connected := False\<rparr>,
                     effs1 @ [SockSendall k data, Logging WARNING ''Error sending data''])))"

definition send :: "env \<Rightarrow> bytes \<Rightarrow> SocketManager \<Rightarrow> bool call" where
  "send e data = with_lock (send_body e data)"

text \<open>\<^verbatim>\<open>close\<close> (lines 218-226). The flag says whether \<^verbatim>\<open>self.socket.close()\<close> raises; the
  \<^verbatim>\<open>except\<close> branch only logs and the \<^verbatim>\<open>finally\<close> branch runs either way.\<close>

definition close_body :: "bool \<Rightarrow> SocketManager \<Rightarrow> unit call" where
  "close_body close_raises s =
     (case socket s of
        None \<Rightarrow> (Return (), s, [])
      | Some k \<Rightarrow>
          (Return (), s\<lparr>connected := False, socket := None\<rparr>,
           SockClose k # (if close_raises then [Logging WARNING ''Error closing socket''] else [])))"

definition close :: "bool \<Rightarrow> SocketManager \<Rightarrow> unit call" where
  "close close_raises = with_lock (close_body close_raises)"


section \<open>The bounded channel\<close>

text \<open>
  \<^verbatim>\<open>queue.Queue(maxsize=MAX_QUEUE_SIZE)\<close> of the standard library: a deque of items, a
  bound (\<open>0\<close> means unbounded) and the count of unfinished tasks. Each operation runs under
  the queue's own mutex, so it is one atomic step. A blocking \<^verbatim>\<open>put\<close> or \<^verbatim>\<open>get\<close> with a
  timeout is modelled at the moment it ends: \<^verbatim>\<open>put\<close> either finds room and appends, or
  its wait has run out with the queue still full and it raises \<^verbatim>\<open>Full\<close>; \<^verbatim>\<open>get\<close> either
  pops the head or raises \<^verbatim>\<open>Empty\<close>. A non-blocking \<^verbatim>\<open>put\<close> ends the same two ways
  without waiting.
\<close>

datatype queue_exn = Full | Empty | ValueError

record 'a Queue =
  maxsize :: nat
  items :: "'a list"
  unfinished_tasks :: nat

definition Queue_init :: "nat \<Rightarrow> 'a Queue" where
  "Queue_init n = \<lparr> maxsize = n, items = [], unfinished_tasks = 0 \<rparr>"

definition put :: "'a \<Rightarrow> 'a Queue \<Rightarrow> queue_exn + 'a Queue" where
  "put x q =
     (if 0 < maxsize q \<and> maxsize q \<le> length (items q) then Inl Full
      else Inr (q\<lparr>items := items q @ [x], unfinished_tasks := unfinished_tasks q + 1\<rparr>))"

definition get :: "'a Queue \<Rightarrow> queue_exn + 'a \<times> 'a Queue" where
  "get q = (case items q of [] \<Rightarrow> Inl Empty | x # xs \<Rightarrow> Inr (x, q\<lparr>items := xs\<rparr>))"

definition task_done :: "'a Queue \<Rightarrow> queue_exn + 'a Queue" where
  "task_done q =
     (if unfinished_tasks q = 0 then Inl ValueError
      else Inr (q\<lparr>unfinished_tasks := unfinished_tasks q - 1\<rparr>))"

section \<open>The handler and its two loops\<close>

text \<open>Of \<^verbatim>\<open>AISConfig\<close> the handler's core reads the endpoint and the retry count; the
  fields carry a prefix because \<^verbatim>\<open>port\<close> and \<^verbatim>\<open>max_retries\<close> are fields of the manager
  too.\<close>

record AISConfig =
  cfg_ip :: string
  cfg_port :: int
  cfg_max_retries :: int

record Serial =
  is_open :: bool

record AISHandler =
  config :: AISConfig
  serial_port :: "Serial option"
  data_queue :: "bytes Queue"
  socket_manager :: SocketManager
  running :: bool
  producer_thread :: "thread option"
  consumer_thread :: "thread option"

definition AISHandler_init :: "AISConfig \<Rightarrow> AISHandler" where
  "AISHandler_init c =
     \<lparr> config = c, serial_port = None, data_queue = Queue_init MAX_QUEUE_SIZE,
       socket_manager = SocketManager_init (cfg_ip c) (cfg_port c) (cfg_max_retries c),
       running = False, producer_thread = None, consumer_thread = None \<rparr>"

text \<open>
  The two loops run in two threads and share the queue, so the pipeline is a transition
  system: a state and one step per event, with any interleaving of the two threads a list
  of events. The state is the handler, the consumer's local variable \<^verbatim>\<open>data\<close> (set between
  its \<^verbatim>\<open>get\<close> and the end of that iteration) and a history that the code does not keep:
  the lines the producer offered, the records put on the queue, taken from it, sent,
  dropped on a full queue and lost to an exception, the number of sends that returned
  False or raised, and the effects so far.
\<close>

record world =
  handler :: AISHandler
  data :: "bytes option"
  offered :: "bytes list"
  enqueued :: "bytes list"
  dequeued :: "bytes list"
  delivered :: "bytes list"
  dropped :: "bytes list"
  lost :: "bytes list"
  failures :: nat
  effects :: "effect list"

definition world_init :: "AISHandler \<Rightarrow> world" where
  "world_init h =
     \<lparr> handler = h, data = None, offered = [], enqueued = [], dequeued = [],
       delivered = [], dropped = [], lost = [], failures = 0, effects = [] \<rparr>"

text \<open>What the environment decides during one iteration of the read loop: whether opening
  the serial port succeeds (it is opened only when the handle is absent or closed), how
  \<^verbatim>\<open>readline\<close> ends, and whether closing the port raises.\<close>

datatype read_result = Line bytes | SerialException | ReadOtherException

record serial_env =
  open_ok :: bool
  readline :: read_result
  close_raises :: bool

datatype event =
    ProducerIter serial_env  \<comment> \<open>one iteration of \<^verbatim>\<open>_producer\<close>, at the moment its \<^verbatim>\<open>put\<close> ends\<close>
  | ConsumerGet  \<comment> \<open>the \<^verbatim>\<open>get\<close> of \<^verbatim>\<open>_consumer\<close> has ended\<close>
  | ConsumerSend env  \<comment> \<open>the \<^verbatim>\<open>send\<close> call and the rest of that iteration\<close>

text \<open>\<^verbatim>\<open>_producer\<close>, lines 256-261: an empty line (a read that timed out) is skipped.\<close>

definition producer_line :: "bytes \<Rightarrow> world \<Rightarrow> world" where
  "producer_line line w =
     (if line = [] then w
      else
        (case put line (data_queue (handler w)) of
           Inl _ \<Rightarrow>
             w\<lparr>offered := offered w @ [line], dropped := dropped w @ [line],
               effects := effects w @ [Logging DEBUG ''Received AIS data'',
                                       Logging WARNING ''Queue full, dropping AIS data'']\<rparr>
         | Inr q \<Rightarrow>
             w\<lparr>handler := (handler w)\<lparr>data_queue := q\<rparr>,
               offered := offered w @ [line], enqueued := enqueued w @ [line],
               effects := effects w @ [Logging DEBUG ''Received AIS data'']\<rparr>))"

text \<open>\<^verbatim>\<open>_connect_serial\<close>, lines 298-307, and \<^verbatim>\<open>_close_serial\<close>, lines 311-317.\<close>

definition connect_serial :: "bool \<Rightarrow> AISHandler \<Rightarrow> AISHandler \<times> effect list" where
  "connect_serial ok h =
     (if ok then (h\<lparr>serial_port := Some \<lparr> is_open = True \<rparr>\<rparr>,
                  [Logging INFO ''Connected to AIS serial port''])
      else (h\<lparr>serial_port := None\<rparr>, [Logging ERROR ''Failed to connect to serial port'']))"

definition close_serial :: "bool \<Rightarrow> AISHandler \<Rightarrow> AISHandler \<times> effect list" where
  "close_serial raises h =
     (case serial_port h of
        None \<Rightarrow> (h, [])
      | Some sp \<Rightarrow>
          if is_open sp then
            (h\<lparr>serial_port := None\<rparr>,
             SerialClose # (if raises then [Logging WARNING ''Error closing serial port''] else []))
          else (h, []))"

text \<open>One iteration of \<^verbatim>\<open>_producer\<close>, lines 248-268 (the sleeps take time and change
  nothing).\<close>

definition producer_iteration :: "serial_env \<Rightarrow> world \<Rightarrow> world" where
  "producer_iteration se w =
     (let h = handler w;
          (h1, effs1) =
            (case serial_port h of
               None \<Rightarrow> connect_serial (open_ok se) h
             | Some sp \<Rightarrow> if \<not> is_open sp then connect_serial (open_ok se) h else (h, []));
          w1 = w\<lparr>handler := h1, effects := effects w @ effs1\<rparr>
      in (case serial_port h1 of
            None \<Rightarrow> w1
          | Some sp \<Rightarrow>
              (case readline se of
                 Line line \<Rightarrow> producer_line line w1
               | SerialException \<Rightarrow>
                   (let (h2, effs2) = close_serial (close_raises se) h1
                    in w1\<lparr>handler := h2,
                          effects := effects w1 @ Logging ERROR ''AIS serial read error'' # effs2\<rparr>)
               | ReadOtherException \<Rightarrow>
                   w1\<lparr>effects := effects w1 @ [Logging ERROR ''Unexpected error in producer'']\<rparr>)))"

text \<open>\<^verbatim>\<open>_consumer\<close>, lines 275-278. The step is not enabled while a record is in flight.\<close>

definition consumer_get :: "world \<Rightarrow> world option" where
  "consumer_get w =
     (case data w of
        Some _ \<Rightarrow> None
      | None \<Rightarrow>
          (case get (data_queue (handler w)) of
             Inl _ \<Rightarrow> Some w
           | Inr (x, q) \<Rightarrow>
               Some (w\<lparr>handler := (handler w)\<lparr>data_queue := q\<rparr>, data := Some x,
                       dequeued := dequeued w @ [x]\<rparr>)))"

text \<open>Line 291, \<^verbatim>\<open>task_done\<close>, and the end of the iteration. A \<^verbatim>\<open>ValueError\<close> from
  \<^verbatim>\<open>task_done\<close> is caught by \<^verbatim>\<open>except Exception\<close> and logged.\<close>

definition end_iteration :: "world \<Rightarrow> world" where
  "end_iteration w =
     (case task_done (data_queue (handler w)) of
        Inl _ \<Rightarrow> w\<lparr>data := None,
                   effects := effects w @ [Logging ERROR ''Unexpected error in consumer'']\<rparr>
      | Inr q \<Rightarrow> w\<lparr>handler := (handler w)\<lparr>data_queue := q\<rparr>, data := None\<rparr>)"

text \<open>\<^verbatim>\<open>_consumer\<close>, lines 280-294. When \<^verbatim>\<open>send\<close> never returns the consumer never moves
  again: the record stays in flight and the manager keeps its lock. When \<^verbatim>\<open>send\<close> raises,
  \<^verbatim>\<open>except Exception\<close> logs it and the record is neither sent nor put back.\<close>

definition consumer_send :: "env \<Rightarrow> world \<Rightarrow> world option" where
  "consumer_send e w =
     (case data w of
        None \<Rightarrow> None
      | Some x \<Rightarrow>
          (case send e x (socket_manager (handler w)) of
             (Blocked, m, effs) \<Rightarrow>
               Some (w\<lparr>handler := (handler w)\<lparr>socket_manager := m\<rparr>,
                       effects := effects w @ effs\<rparr>)
           | (Raise _, m, effs) \<Rightarrow>
               Some (w\<lparr>handler := (handler w)\<lparr>socket_manager := m\<rparr>, data := None,
                       lost := lost w @ [x], failures := failures w + 1,
                       effects := effects w @ effs @
                                  [Logging ERROR ''Unexpected error in consumer'']\<rparr>)
           | (Return True, m, effs) \<Rightarrow>
               Some (end_iteration
                 (w\<lparr>handler := (handler w)\<lparr>socket_manager := m\<rparr>,
                    delivered := delivered w @ [x],
                    effects := effects w @ effs @ [Logging DEBUG ''Sent'']\<rparr>))
           | (Return False, m, effs) \<Rightarrow>
               (case put x (data_queue (handler w)) of
                  Inl _ \<Rightarrow>
                    Some (end_iteration
                      (w\<lparr>handler := (handler w)\<lparr>socket_manager := m\<rparr>,
                         dropped := dropped w @ [x], failures := failures w + 1,
                         effects := effects w @ effs @
                           [Logging WARNING ''Failed to send data, re-queuing'',
                            Logging WARNING ''Queue full, dropping data on send failure'']\<rparr>))
                | Inr q \<Rightarrow>
                    Some (end_iteration
                      (w\<lparr>handler := (handler w)\<lparr>socket_manager := m, data_queue := q\<rparr>,
                         enqueued := enqueued w @ [x], failures := failures w + 1,
                         effects := effects w @ effs @
                           [Logging WARNING ''Failed to send data, re-queuing'']\<rparr>)))))"

text \<open>Each loop is \<^verbatim>\<open>while self.running:\<close>, so an iteration begins only while the flag is
  set; the second half of a consumer iteration follows its first half.\<close>

fun step :: "event \<Rightarrow> world \<Rightarrow> world option" where
  "step (ProducerIter se) w =
     (if running (handler w) then Some (producer_iteration se w) else None)"
| "step ConsumerGet w = (if running (handler w) then consumer_get w else None)"
| "step (ConsumerSend e) w = consumer_send e w"

fun run :: "event list \<Rightarrow> world \<Rightarrow> world option" where
  "run [] w = Some w"
| "run (ev # evs) w = (case step ev w of None \<Rightarrow> None | Some w' \<Rightarrow> run evs w')"

section \<open>Start and stop\<close>

definition start :: "AISHandler \<Rightarrow> AISHandler \<times> effect list" where
  "start h =
     (if running h then (h, [])
      else (h\<lparr>running := True, producer_thread := Some (Thread ''AIS-Producer''),
              consumer_thread := Some (Thread ''AIS-Consumer'')\<rparr>,
            [Logging INFO ''AIS handler started'']))"

text \<open>What the environment decides during \<^verbatim>\<open>stop\<close>: whether each thread is still alive
  when \<^verbatim>\<open>is_alive\<close> is asked, and whether each close raises.\<close>

record stop_env =
  producer_alive :: bool
  consumer_alive :: bool
  serial_close_raises :: bool
  socket_close_raises :: bool

definition joins :: "stop_env \<Rightarrow> AISHandler \<Rightarrow> effect list" where
  "joins e h =
     (case producer_thread h of
        None \<Rightarrow> []
      | Some th \<Rightarrow> if producer_alive e then [ThreadJoin th 5] else []) @
     (case consumer_thread h of
        None \<Rightarrow> []
      | Some th \<Rightarrow> if consumer_alive e then [ThreadJoin th 5] else [])"

text \<open>\<^verbatim>\<open>stop\<close>, lines 346-363. It ends the way the manager's \<^verbatim>\<open>close\<close> ends.\<close>

definition stop :: "stop_env \<Rightarrow> AISHandler \<Rightarrow> unit outcome \<times> AISHandler \<times> effect list" where
  "stop e h =
     (if \<not> running h then (Return (), h, [])
      else
        let h1 = h\<lparr>running := False\<rparr>;
            effs1 = Logging INFO ''Stopping AIS handler...'' # joins e h1;
            (h2, effs2) = close_serial (serial_close_raises e) h1
        in (case close (socket_close_raises e) (socket_manager h2) of
              (Return u, m, effs3) \<Rightarrow>
                (Return (), h2\<lparr>socket_manager := m\<rparr>,
                 effs1 @ effs2 @ effs3 @ [Logging INFO ''AIS handler stopped''])
            | (r, m, effs3) \<Rightarrow> (r, h2\<lparr>socket_manager := m\<rparr>, effs1 @ effs2 @ effs3)))"

section \<open>Runs, invariants and example inputs\<close>

text \<open>Successive \<^verbatim>\<open>connect()\<close> calls made one after the other, each with what the
  environment does during it: the state they end in, whether every one of them returned
  False, and how many of them tried the network and failed (a call rejected by the
  throttle tries nothing).\<close>

fun connect_calls :: "env list \<Rightarrow> SocketManager \<Rightarrow> SocketManager" where
  "connect_calls [] s = s"
| "connect_calls (e # es) s = connect_calls es (fst (snd (connect e s)))"

fun all_return_False :: "env list \<Rightarrow> SocketManager \<Rightarrow> bool" where
  "all_return_False [] s = True"
| "all_return_False (e # es) s =
     (case connect e s of (r, s', effs) \<Rightarrow> r = Return False \<and> all_return_False es s')"

fun failed_attempts :: "env list \<Rightarrow> SocketManager \<Rightarrow> nat" where
  "failed_attempts [] s = 0"
| "failed_attempts (e # es) s =
     (case connect e s of (r, s', effs) \<Rightarrow>
        (if r = Return False \<and> filter is_connect_op effs \<noteq> [] then 1 else 0)
        + failed_attempts es s')"

definition backoff_formula :: "nat \<Rightarrow> real" where
  "backoff_formula n = min (RECONNECT_DELAY * BACKOFF_FACTOR ^ n) MAX_BACKOFF_DELAY"

text \<open>The invariant of the manager: a connected manager has a socket.\<close>

definition SM_inv :: "SocketManager \<Rightarrow> bool" where
  "SM_inv s = (connected s \<longrightarrow> socket s \<noteq> None)"

abbreviation chan :: "world \<Rightarrow> bytes list" where
  "chan w \<equiv> items (data_queue (handler w))"

abbreviation cap :: "world \<Rightarrow> nat" where
  "cap w \<equiv> maxsize (data_queue (handler w))"

text \<open>The record the consumer holds between its \<^verbatim>\<open>get\<close> and the end of the iteration.\<close>

definition in_flight :: "world \<Rightarrow> bytes list" where
  "in_flight w = (case data w of None \<Rightarrow> [] | Some x \<Rightarrow> [x])"


text \<open>Concrete inputs: a configuration, an endpoint that accepts and one that refuses, a
  serial port that delivers a line, and a started handler whose manager was connected
  beforehand by a direct call of \<^verbatim>\<open>connect\<close>. Every clock reading in the examples is a
  whole number of seconds below \<open>2 ^ 53\<close>; the difference of two such floats is again one
  and is computed without rounding, so in these environments the floating-point
  subtraction is the subtraction.\<close>

definition demo_config :: AISConfig where
  "demo_config = \<lparr> cfg_ip = ''192.0.2.1'', cfg_port = 10110, cfg_max_retries = 3 \<rparr>"

definition net_up :: "real \<Rightarrow> env" where
  "net_up t = \<lparr> now = t, float_sub = (\<lambda>a b. a - b), fresh = 1, conn = ConnOk,
               sendall_ok = True \<rparr>"

definition net_down :: "real \<Rightarrow> env" where
  "net_down t = \<lparr> now = t, float_sub = (\<lambda>a b. a - b), fresh = 2, conn = ConnSocketError,
                 sendall_ok = False \<rparr>"

definition line_read :: "bytes \<Rightarrow> serial_env" where
  "line_read l = \<lparr> open_ok = True, readline = Line l, close_raises = False \<rparr>"

definition connected_handler :: AISHandler where
  "connected_handler =
     fst (start
       ((AISHandler_init demo_config)
          \<lparr>socket_manager :=
             fst (snd (connect (net_up 1000)
                         (socket_manager (AISHandler_init demo_config))))\<rparr>))"

definition threads_alive :: stop_env where
  "threads_alive = \<lparr> producer_alive = True, consumer_alive = True,
                     serial_close_raises = False, socket_close_raises = False \<rparr>"

section \<open>The connection manager: backoff, throttle, close\<close>

lemmas model_defs =
  demo_config_def net_up_def net_down_def line_read_def connected_handler_def
  threads_alive_def AISHandler_init_def SocketManager_init_def Queue_init_def world_init_def
  connect_def connect_body_def connect_failed_def with_lock_def send_def send_body_def
  close_def close_body_def put_def get_def task_done_def
  producer_line_def producer_iteration_def connect_serial_def close_serial_def
  consumer_get_def consumer_send_def end_iteration_def start_def stop_def joins_def
  MAX_QUEUE_SIZE_def SOCKET_TIMEOUT_def RECONNECT_DELAY_def BACKOFF_FACTOR_def
  MAX_BACKOFF_DELAY_def in_flight_def Let_def

lemma backoff_formula_Suc:
  "min (backoff_formula n * BACKOFF_FACTOR) MAX_BACKOFF_DELAY = backoff_formula (Suc n)"
  by (simp add: backoff_formula_def BACKOFF_FACTOR_def MAX_BACKOFF_DELAY_def
      RECONNECT_DELAY_def min_def)

lemma connect_False_cases:
  assumes "\<not> socket_lock s" "\<not> connected s" "connect e s = (Return False, s', effs)"
  shows "\<not> socket_lock s' \<and> \<not> connected s' \<and>
         ((filter is_connect_op effs = [] \<and> backoff_delay s' = backoff_delay s) \<or>
          (filter is_connect_op effs \<noteq> [] \<and>
           backoff_delay s' = min (backoff_delay s * BACKOFF_FACTOR) MAX_BACKOFF_DELAY))"
  using assms
  by (auto simp: connect_def with_lock_def connect_body_def connect_failed_def Let_def
      split: conn_result.splits option.splits if_splits)

lemma backoff_after_failures_gen:
  "\<not> socket_lock s \<Longrightarrow> \<not> connected s \<Longrightarrow> backoff_delay s = backoff_formula k \<Longrightarrow>
   all_return_False es s \<Longrightarrow>
   backoff_delay (connect_calls es s) = backoff_formula (k + failed_attempts es s)"
proof (induction es arbitrary: s k)
  case Nil
  then show ?case by simp
next
  case (Cons e es)
  obtain r s' effs where c: "connect e s = (r, s', effs)"
    by (cases "connect e s") auto
  with Cons.prems(4) have r: "r = Return False" and rest: "all_return_False es s'"
    by auto
  from connect_False_cases [OF Cons.prems(1,2) c [unfolded r]]
  have free: "\<not> socket_lock s'" and disc: "\<not> connected s'"
    and d: "(filter is_connect_op effs = [] \<and> backoff_delay s' = backoff_delay s) \<or>
          (filter is_connect_op effs \<noteq> [] \<and>
           backoff_delay s' = min (backoff_delay s * BACKOFF_FACTOR) MAX_BACKOFF_DELAY)"
    by auto
  show ?case
  proof (cases "filter is_connect_op effs = []")
    case True
    with d Cons.prems(3) have "backoff_delay s' = backoff_formula k" by auto
    from Cons.IH [OF free disc this rest] show ?thesis
      using c r True by simp
  next
    case False
    with d Cons.prems(3) have "backoff_delay s' = backoff_formula (Suc k)"
      by (auto simp: backoff_formula_Suc)
    from Cons.IH [OF free disc this rest] show ?thesis
      using c r False by simp
  qed
qed

text \<open>
  C4. Take any series of \<^verbatim>\<open>connect()\<close> calls on a manager that is not connected and whose
  delay is the base delay, and let none of them succeed. Then the delay afterwards is
  \<open>min (base * factor ^ N) max\<close>, where \<open>N\<close> is the number of calls that tried the network
  and failed, \<open>base = 5\<close>, \<open>factor = 1.5\<close> and \<open>max = 60\<close>. And one successful \<^verbatim>\<open>connect()\<close>,
  from any delay, sets the delay back to the base.
\<close>

theorem backoff_after_failures:
  assumes "\<not> socket_lock s" and "\<not> connected s"
    and "backoff_delay s = RECONNECT_DELAY"
    and "all_return_False es s"
  shows "backoff_delay (connect_calls es s)
           = min (RECONNECT_DELAY * BACKOFF_FACTOR ^ failed_attempts es s) MAX_BACKOFF_DELAY
       \<and> RECONNECT_DELAY = 5 \<and> BACKOFF_FACTOR = 1.5 \<and> MAX_BACKOFF_DELAY = 60
       \<and> (\<forall>e t. \<not> socket_lock t \<and> \<not> connected t \<and>
              backoff_delay t \<le> float_sub e (now e) (last_attempt t)
              \<and> conn e = ConnOk \<longrightarrow>
            (case connect e t of (r, t', effs) \<Rightarrow>
               r = Return True \<and> connected t' \<and> backoff_delay t' = RECONNECT_DELAY))"
proof (intro conjI)
  have "backoff_delay s = backoff_formula 0"
    using assms(3) by (simp add: backoff_formula_def RECONNECT_DELAY_def MAX_BACKOFF_DELAY_def)
  from backoff_after_failures_gen [OF assms(1,2) this assms(4)]
  show "backoff_delay (connect_calls es s)
           = min (RECONNECT_DELAY * BACKOFF_FACTOR ^ failed_attempts es s) MAX_BACKOFF_DELAY"
    by (simp add: backoff_formula_def)
next
  show "\<forall>e t. \<not> socket_lock t \<and> \<not> connected t \<and>
              backoff_delay t \<le> float_sub e (now e) (last_attempt t)
              \<and> conn e = ConnOk \<longrightarrow>
            (case connect e t of (r, t', effs) \<Rightarrow>
               r = Return True \<and> connected t' \<and> backoff_delay t' = RECONNECT_DELAY)"
    by (auto simp: connect_def with_lock_def connect_body_def Let_def)
qed (simp_all add: RECONNECT_DELAY_def BACKOFF_FACTOR_def MAX_BACKOFF_DELAY_def)

text \<open>Eleven calls on a new manager with the endpoint down: three are rejected by the
  throttle, eight fail, and the delay has reached the cap, \<open>min (5 * 1.5 ^ 8) 60 = 60\<close>;
  after the first three failures it is \<open>5 * 1.5 ^ 3 = 16.875\<close>. A success then resets it.\<close>

theorem backoff_after_failures_witness:
  "\<not> socket_lock (SocketManager_init ''192.0.2.1'' 10110 3) \<and>
   \<not> connected (SocketManager_init ''192.0.2.1'' 10110 3) \<and>
   backoff_delay (SocketManager_init ''192.0.2.1'' 10110 3) = RECONNECT_DELAY \<and>
   all_return_False (map net_down [100, 101, 110, 120, 140, 170, 200, 260, 320, 321, 400])
     (SocketManager_init ''192.0.2.1'' 10110 3) \<and>
   failed_attempts (map net_down [100, 101, 110, 120, 140, 170, 200, 260, 320, 321, 400])
     (SocketManager_init ''192.0.2.1'' 10110 3) = 8 \<and>
   backoff_delay
     (connect_calls (map net_down [100, 101, 110, 120, 140, 170, 200, 260, 320, 321, 400])
        (SocketManager_init ''192.0.2.1'' 10110 3)) = 60 \<and>
   failed_attempts (map net_down [100, 103, 108, 120])
     (SocketManager_init ''192.0.2.1'' 10110 3) = 3 \<and>
   backoff_delay
     (connect_calls (map net_down [100, 103, 108, 120])
        (SocketManager_init ''192.0.2.1'' 10110 3)) = 16.875 \<and>
   backoff_delay
     (fst (snd (connect (net_up 140)
        (connect_calls (map net_down [100, 103, 108, 120])
           (SocketManager_init ''192.0.2.1'' 10110 3))))) = 5"
proof -
  let ?s = "SocketManager_init ''192.0.2.1'' 10110 3"
  let ?long = "map net_down [100, 101, 110, 120, 140, 170, 200, 260, 320, 321, 400]"
  let ?short = "map net_down [100, 103, 108, 120]"
  have h: "\<not> socket_lock ?s" "\<not> connected ?s" "backoff_delay ?s = RECONNECT_DELAY"
    by (simp_all add: SocketManager_init_def)
  have l: "all_return_False ?long ?s" and nl: "failed_attempts ?long ?s = 8"
    by (simp_all add: model_defs)
  have s: "all_return_False ?short ?s" and ns: "failed_attempts ?short ?s = 3"
    by (simp_all add: model_defs)
  have t: "\<not> socket_lock (connect_calls ?short ?s)" "\<not> connected (connect_calls ?short ?s)"
    "last_attempt (connect_calls ?short ?s) = 120"
    by (simp_all add: model_defs)
  have 1: "backoff_delay (connect_calls ?long ?s) = 60"
    using backoff_after_failures [OF h l, THEN conjunct1] unfolding nl
    by (simp add: RECONNECT_DELAY_def BACKOFF_FACTOR_def MAX_BACKOFF_DELAY_def power_divide)
  have 2: "backoff_delay (connect_calls ?short ?s) = 16.875"
    using backoff_after_failures [OF h s, THEN conjunct1] unfolding ns
    by (simp add: RECONNECT_DELAY_def BACKOFF_FACTOR_def MAX_BACKOFF_DELAY_def power_divide)
  note r = backoff_after_failures [OF h s, THEN conjunct2, THEN conjunct2, THEN conjunct2,
      THEN conjunct2]
  from r [rule_format, of "connect_calls ?short ?s" "net_up 140"] t 2
  have 3: "backoff_delay (fst (snd (connect (net_up 140) (connect_calls ?short ?s)))) = 5"
    by (auto simp: net_up_def RECONNECT_DELAY_def split: prod.splits)
  from h l nl s ns 1 2 3 show ?thesis by simp
qed

text \<open>
  C5. On a manager that is not connected (and on which no other call is in progress, so
  that the lock is free), \<^verbatim>\<open>connect()\<close> called when the time since the last attempt is
  less than the current delay returns False and has no effect at all, so no socket
  operation; called when it is at least the delay, it records the time of the attempt and
  its socket operations are the close of the stale socket, if there is one, and then one
  new socket, its timeout and one \<^verbatim>\<open>connect\<close>. The time since the last attempt is
  \<^verbatim>\<open>time_since_last_attempt\<close>, the difference of the two clock readings as the code's
  floating-point subtraction gives it, whatever that subtraction does.
\<close>

theorem connect_gate:
  assumes "\<not> socket_lock s" and "\<not> connected s"
  shows "(float_sub e (now e) (last_attempt s) < backoff_delay s \<longrightarrow>
           connect e s = (Return False, s, []))
       \<and> (backoff_delay s \<le> float_sub e (now e) (last_attempt s) \<longrightarrow>
           (case connect e s of (r, s', effs) \<Rightarrow>
              last_attempt s' = now e \<and>
              filter is_sock_op effs =
                (case socket s of None \<Rightarrow> [] | Some k \<Rightarrow> [SockClose k]) @
                [SockCreate (fresh e), SockSettimeout (fresh e) SOCKET_TIMEOUT,
                 SockConnect (fresh e) (host s) (port s)] \<and>
              length (filter is_connect_op effs) = 1))"
  using assms
  by (auto simp: connect_def with_lock_def connect_body_def connect_failed_def Let_def
      split: conn_result.splits option.splits)

text \<open>A new manager, whose last attempt is at 0 and whose delay is 5, called at time 3 and
  at time 100.\<close>

theorem connect_gate_witness:
  "\<not> socket_lock (SocketManager_init ''192.0.2.1'' 10110 3) \<and>
   \<not> connected (SocketManager_init ''192.0.2.1'' 10110 3) \<and>
   float_sub (net_down 3) (now (net_down 3))
       (last_attempt (SocketManager_init ''192.0.2.1'' 10110 3))
     < backoff_delay (SocketManager_init ''192.0.2.1'' 10110 3) \<and>
   connect (net_down 3) (SocketManager_init ''192.0.2.1'' 10110 3)
     = (Return False, SocketManager_init ''192.0.2.1'' 10110 3, []) \<and>
   backoff_delay (SocketManager_init ''192.0.2.1'' 10110 3)
     \<le> float_sub (net_down 100) (now (net_down 100))
         (last_attempt (SocketManager_init ''192.0.2.1'' 10110 3)) \<and>
   last_attempt (fst (snd (connect (net_down 100) (SocketManager_init ''192.0.2.1'' 10110 3))))
     = 100 \<and>
   filter is_sock_op
     (snd (snd (connect (net_down 100) (SocketManager_init ''192.0.2.1'' 10110 3))))
     = [SockCreate 2, SockSettimeout 2 5, SockConnect 2 ''192.0.2.1'' 10110]"
proof -
  let ?s = "SocketManager_init ''192.0.2.1'' 10110 3"
  have h: "\<not> socket_lock ?s" "\<not> connected ?s"
    by (simp_all add: SocketManager_init_def)
  have a: "float_sub (net_down 3) (now (net_down 3)) (last_attempt ?s) < backoff_delay ?s"
    and b: "backoff_delay ?s
            \<le> float_sub (net_down 100) (now (net_down 100)) (last_attempt ?s)"
    and f: "socket ?s = None" "host ?s = ''192.0.2.1''" "port ?s = 10110"
      "fresh (net_down 100) = 2" "now (net_down 100) = 100"
    by (simp_all add: SocketManager_init_def net_down_def RECONNECT_DELAY_def)
  from connect_gate [OF h, of "net_down 3"] a
  have 1: "connect (net_down 3) ?s = (Return False, ?s, [])" by blast
  from connect_gate [OF h, of "net_down 100"] b f
  have 2: "last_attempt (fst (snd (connect (net_down 100) ?s))) = 100"
    and 3: "filter is_sock_op (snd (snd (connect (net_down 100) ?s)))
          = [SockCreate 2, SockSettimeout 2 5, SockConnect 2 ''192.0.2.1'' 10110]"
    by (auto simp: SOCKET_TIMEOUT_def split: prod.splits)
  from h a b 1 2 3 show ?thesis by simp
qed

text \<open>
  C10. A \<^verbatim>\<open>connect()\<close> call that the throttle rejects (the manager is not connected and
  the time since the last attempt, as the code's floating-point subtraction gives it, is
  less than the current delay) returns False and leaves the manager as it was, every field:
  time of the last attempt, delay, socket and connected flag.
\<close>

theorem connect_throttled_unchanged:
  assumes "\<not> socket_lock s" and "\<not> connected s"
    and "float_sub e (now e) (last_attempt s) < backoff_delay s"
  shows "connect e s = (Return False, s, [])"
  using assms by (simp add: connect_def with_lock_def connect_body_def)

text \<open>A manager whose one attempt at time 100 failed, so that its delay is 7.5, called
  again at time 104.\<close>

theorem connect_throttled_unchanged_witness:
  "\<not> socket_lock (connect_calls [net_down 100] (SocketManager_init ''192.0.2.1'' 10110 3)) \<and>
   \<not> connected (connect_calls [net_down 100] (SocketManager_init ''192.0.2.1'' 10110 3)) \<and>
   float_sub (net_up 104) (now (net_up 104))
       (last_attempt (connect_calls [net_down 100] (SocketManager_init ''192.0.2.1'' 10110 3)))
     < backoff_delay (connect_calls [net_down 100] (SocketManager_init ''192.0.2.1'' 10110 3)) \<and>
   connect (net_up 104) (connect_calls [net_down 100] (SocketManager_init ''192.0.2.1'' 10110 3))
     = (Return False,
        \<lparr> host = ''192.0.2.1'', port = 10110, max_retries = 3, socket = Some 2,
          socket_lock = False, connected = False, last_attempt = 100,
          backoff_delay = 7.5 \<rparr>, [])"
proof -
  let ?s = "connect_calls [net_down 100] (SocketManager_init ''192.0.2.1'' 10110 3)"
  have v: "?s = \<lparr> host = ''192.0.2.1'', port = 10110, max_retries = 3, socket = Some 2,
          socket_lock = False, connected = False, last_attempt = 100,
          backoff_delay = 7.5 \<rparr>"
    by (simp add: model_defs)
  have h: "\<not> socket_lock ?s" "\<not> connected ?s"
    "float_sub (net_up 104) (now (net_up 104)) (last_attempt ?s) < backoff_delay ?s"
    unfolding v by (simp_all add: net_up_def)
  from connect_throttled_unchanged [OF h] h v show ?thesis by simp
qed

text \<open>What counts is the difference as computed. The floats written \<^verbatim>\<open>5.1\<close> and \<^verbatim>\<open>0.1\<close> are
  the two reals below; their difference is less than 5, but their floating-point difference
  is \<^verbatim>\<open>5.0\<close>, and with a delay of 5 the call is not throttled: it attempts a connection.\<close>

lemma rounded_difference_decides:
  assumes "\<not> socket_lock s" and "\<not> connected s" and "backoff_delay s = 5"
    and "last_attempt s = 3602879701896397 / 2 ^ 55"
    and "now e = 2871044762448691 / 2 ^ 49"
    and "float_sub e (now e) (last_attempt s) = 5"
  shows "now e - last_attempt s < backoff_delay s \<and>
         last_attempt (fst (snd (connect e s))) = now e \<and>
         length (filter is_connect_op (snd (snd (connect e s)))) = 1"
proof -
  have "now e - last_attempt s < backoff_delay s"
    unfolding assms(3,4,5) by simp
  moreover have "backoff_delay s \<le> float_sub e (now e) (last_attempt s)"
    using assms(3,6) by simp
  then have "last_attempt (fst (snd (connect e s))) = now e \<and>
         length (filter is_connect_op (snd (snd (connect e s)))) = 1"
    using assms(1,2)
    by (auto simp: connect_def with_lock_def connect_body_def connect_failed_def Let_def
        split: conn_result.splits option.splits)
  ultimately show ?thesis by simp
qed

text \<open>
  C8. \<^verbatim>\<open>close()\<close> on a manager in a state the operations can leave it in (a connected
  manager has a socket; no other call is in progress) closes the socket if there is one,
  whether or not that close raises, and leaves the manager without socket and not
  connected; a second \<^verbatim>\<open>close()\<close> returns with no effect and the same state.
\<close>

theorem close_idempotent:
  assumes "\<not> socket_lock s" and "SM_inv s"
  shows "(case close c s of (r, s', effs) \<Rightarrow>
            r = Return () \<and> socket s' = None \<and> \<not> connected s' \<and>
            filter is_sock_op effs = (case socket s of None \<Rightarrow> [] | Some k \<Rightarrow> [SockClose k]) \<and>
            close c' s' = (Return (), s', []))"
  using assms
  by (auto simp: close_def with_lock_def close_body_def SM_inv_def split: option.splits)

theorem close_idempotent_witness:
  "\<not> socket_lock (socket_manager connected_handler) \<and>
   SM_inv (socket_manager connected_handler) \<and>
   connected (socket_manager connected_handler) \<and>
   fst (close True (socket_manager connected_handler)) = Return () \<and>
   socket (fst (snd (close True (socket_manager connected_handler)))) = None \<and>
   \<not> connected (fst (snd (close True (socket_manager connected_handler)))) \<and>
   filter is_sock_op (snd (snd (close True (socket_manager connected_handler)))) = [SockClose 1] \<and>
   close False (fst (snd (close True (socket_manager connected_handler))))
     = (Return (), fst (snd (close True (socket_manager connected_handler))), [])"
proof -
  let ?s = "socket_manager connected_handler"
  have h: "\<not> socket_lock ?s" "SM_inv ?s" and c: "connected ?s" "socket ?s = Some 1"
    by (simp_all add: SM_inv_def model_defs)
  from close_idempotent [OF h, where c = True and c' = False] h c show ?thesis
    by (auto split: prod.splits)
qed

lemma with_lock_inv:
  assumes "\<And>t. SM_inv t \<Longrightarrow> SM_inv (fst (snd (body t)))"
  shows "SM_inv s \<Longrightarrow> SM_inv (fst (snd (with_lock body s)))"
proof -
  assume s: "SM_inv s"
  have "SM_inv (s\<lparr>socket_lock := True\<rparr>)" using s by (simp add: SM_inv_def)
  from assms [OF this] show ?thesis using s
    by (auto simp: with_lock_def SM_inv_def split: prod.splits outcome.splits)
qed

lemma connect_body_inv: "SM_inv s \<Longrightarrow> SM_inv (fst (snd (connect_body e s)))"
  by (auto simp: connect_body_def connect_failed_def SM_inv_def Let_def
      split: conn_result.splits)

lemma connect_inv: "SM_inv s \<Longrightarrow> SM_inv (fst (snd (connect e s)))"
  unfolding connect_def by (rule with_lock_inv) (rule connect_body_inv)

lemma send_body_inv: "SM_inv s \<Longrightarrow> SM_inv (fst (snd (send_body e d s)))"
  using connect_inv [of s e]
  by (auto simp: send_body_def SM_inv_def
      split: prod.splits outcome.splits bool.splits option.splits)

lemma send_inv: "SM_inv s \<Longrightarrow> SM_inv (fst (snd (send e d s)))"
  unfolding send_def by (rule with_lock_inv) (rule send_body_inv)

lemma close_body_inv: "SM_inv s \<Longrightarrow> SM_inv (fst (snd (close_body c s)))"
  by (auto simp: close_body_def SM_inv_def split: option.splits)

lemma close_inv: "SM_inv s \<Longrightarrow> SM_inv (fst (snd (close c s)))"
  unfolding close_def by (rule with_lock_inv) (rule close_body_inv)

text \<open>
  C9. Whenever the connected flag is true the socket is not \<^verbatim>\<open>None\<close>: this holds of a new
  manager, and if it holds before \<^verbatim>\<open>connect\<close>, \<^verbatim>\<open>send\<close> or \<^verbatim>\<open>close\<close> it holds of the state
  the call leaves, however the call ends and whatever the environment does.
\<close>

theorem connected_has_socket:
  "SM_inv (SocketManager_init h p r) \<and>
   (SM_inv s \<longrightarrow>
      SM_inv (fst (snd (connect e s))) \<and> SM_inv (fst (snd (send e d s))) \<and>
      SM_inv (fst (snd (close c s))))"
  using connect_inv send_inv close_inv by (simp add: SM_inv_def SocketManager_init_def)

text \<open>A connected manager, with socket 1: after a \<^verbatim>\<open>send\<close> that fails it is not connected
  and keeps the socket; after \<^verbatim>\<open>close\<close> it has neither.\<close>

theorem connected_has_socket_witness:
  "SM_inv (socket_manager connected_handler) \<and>
   connected (socket_manager connected_handler) \<and>
   socket (socket_manager connected_handler) = Some 1 \<and>
   SM_inv (fst (snd (connect (net_up 1001) (socket_manager connected_handler)))) \<and>
   SM_inv (fst (snd (send (net_down 1001) ''!AIVDM'' (socket_manager connected_handler)))) \<and>
   \<not> connected (fst (snd (send (net_down 1001) ''!AIVDM'' (socket_manager connected_handler)))) \<and>
   SM_inv (fst (snd (close False (socket_manager connected_handler)))) \<and>
   socket (fst (snd (close False (socket_manager connected_handler)))) = None"
proof -
  let ?s = "socket_manager connected_handler"
  have i: "SM_inv ?s" and c: "connected ?s" "socket ?s = Some 1"
    by (simp_all add: SM_inv_def model_defs)
  have f: "\<not> connected (fst (snd (send (net_down 1001) ''!AIVDM'' ?s)))"
    "socket (fst (snd (close False ?s))) = None"
    by (simp_all add: model_defs)
  from connected_has_socket [where s = ?s and e = "net_up 1001" and c = False] i
  have "SM_inv (fst (snd (connect (net_up 1001) ?s)))"
    "SM_inv (fst (snd (close False ?s)))" by blast+
  moreover
  from connected_has_socket [where s = ?s and e = "net_down 1001" and d = "''!AIVDM''"] i
  have "SM_inv (fst (snd (send (net_down 1001) ''!AIVDM'' ?s)))" by blast
  ultimately show ?thesis using i c f by simp
qed

section \<open>The connection manager: send\<close>

lemma send_disconnected_blocks:
  "\<not> connected s \<Longrightarrow> send e d s = (Blocked, s\<lparr>socket_lock := True\<rparr>, [])"
  by (cases "socket_lock s") (simp_all add: send_def send_body_def connect_def with_lock_def)

lemma send_connected:
  assumes "connected s" and "\<not> socket_lock s" and "socket s = Some k"
  shows "send e d s =
     (if sendall_ok e then (Return True, s, [SockSendall k d])
      else (Return False, s\<lparr>connected := False\<rparr>,
            [SockSendall k d, Logging WARNING ''Error sending data'']))"
  using assms by (simp add: send_def send_body_def with_lock_def)

text \<open>
  C6. The claim: \<^verbatim>\<open>send\<close> on a manager that is not connected calls \<^verbatim>\<open>connect()\<close>, returns
  False without writing when that fails, and writes the data in the same call when it
  succeeds. The code calls \<^verbatim>\<open>self.connect()\<close> while it holds \<^verbatim>\<open>socket_lock\<close>, and
  \<^verbatim>\<open>connect\<close> starts by acquiring the same lock, which is a \<^verbatim>\<open>threading.Lock\<close> and not
  reentrant: the call waits for a lock that its own caller holds. So \<^verbatim>\<open>send\<close> on a new
  manager, with the endpoint up, never returns, runs no line of \<^verbatim>\<open>connect\<close>, performs no
  socket operation and leaves the lock held. The same holds of every manager that is not
  connected (\<open>send_disconnected_blocks\<close>); on a connected manager \<^verbatim>\<open>send\<close> behaves as the
  claim says (\<open>send_connected\<close>).
\<close>

theorem send_on_new_manager_never_returns:
  "send (net_up 1000) ''!AIVDM'' (SocketManager_init ''192.0.2.1'' 10110 3)
   = (Blocked, (SocketManager_init ''192.0.2.1'' 10110 3)\<lparr>socket_lock := True\<rparr>, [])"
  by (simp add: send_def send_body_def connect_def with_lock_def SocketManager_init_def)

section \<open>The pipeline: order, bound, retry\<close>

lemma end_iteration_fields [simp]:
  "chan (end_iteration w) = chan w" "cap (end_iteration w) = cap w"
  "data (end_iteration w) = None"
  "offered (end_iteration w) = offered w" "enqueued (end_iteration w) = enqueued w"
  "dequeued (end_iteration w) = dequeued w" "delivered (end_iteration w) = delivered w"
  "dropped (end_iteration w) = dropped w" "lost (end_iteration w) = lost w"
  "failures (end_iteration w) = failures w"
  "socket_manager (handler (end_iteration w)) = socket_manager (handler w)"
  by (simp_all add: end_iteration_def task_done_def split: sum.splits)

lemma put_cases:
  "put x q = Inl ex \<Longrightarrow> ex = Full \<and> 0 < maxsize q \<and> maxsize q \<le> length (items q)"
  "put x q = Inr q' \<Longrightarrow> items q' = items q @ [x] \<and> maxsize q' = maxsize q \<and>
     (0 < maxsize q \<longrightarrow> length (items q) < maxsize q)"
  by (auto simp: put_def split: if_splits)

lemma get_cases:
  "get q = Inl ex \<Longrightarrow> ex = Empty \<and> items q = []"
  "get q = Inr (x, q') \<Longrightarrow> items q = x # items q' \<and> maxsize q' = maxsize q"
  by (auto simp: get_def split: list.splits)

text \<open>An iteration of the read loop either leaves queue and history alone or is the
  \<^verbatim>\<open>put\<close> of the line it read, on a state with the same queue and history.\<close>

lemma producer_iteration_cases:
  "\<exists>w1. data_queue (handler w1) = data_queue (handler w) \<and>
        socket_manager (handler w1) = socket_manager (handler w) \<and>
        running (handler w1) = running (handler w) \<and>
        data w1 = data w \<and> offered w1 = offered w \<and> enqueued w1 = enqueued w \<and>
        dequeued w1 = dequeued w \<and> delivered w1 = delivered w \<and> dropped w1 = dropped w \<and>
        lost w1 = lost w \<and> failures w1 = failures w \<and>
        (producer_iteration se w = w1 \<or> (\<exists>line. producer_iteration se w = producer_line line w1))"
proof (cases "\<exists>line. readline se = Line line")
  case True
  then obtain line where l: "readline se = Line line" by blast
  show ?thesis
  proof (cases "serial_port (handler w)")
    case None
    show ?thesis
    proof (cases "open_ok se")
      case True
      with None l show ?thesis
        by (intro exI [of _ "w\<lparr>handler := fst (connect_serial True (handler w)),
                               effects := effects w @ snd (connect_serial True (handler w))\<rparr>"])
           (auto simp: producer_iteration_def connect_serial_def Let_def)
    next
      case False
      with None show ?thesis
        by (intro exI [of _ "producer_iteration se w"])
           (simp add: producer_iteration_def connect_serial_def Let_def)
    qed
  next
    case (Some sp)
    show ?thesis
    proof (cases "is_open sp \<or> open_ok se")
      case True
      with Some l show ?thesis
        by (intro exI [of _ "w\<lparr>handler := (if is_open sp then handler w
                                            else fst (connect_serial True (handler w))),
                               effects := effects w @
                                 (if is_open sp then []
                                  else snd (connect_serial True (handler w)))\<rparr>"])
           (auto simp: producer_iteration_def connect_serial_def Let_def)
    next
      case False
      with Some show ?thesis
        by (intro exI [of _ "producer_iteration se w"])
           (simp add: producer_iteration_def connect_serial_def Let_def)
    qed
  qed
next
  case False
  then show ?thesis
    by (intro exI [of _ "producer_iteration se w"])
       (auto simp: producer_iteration_def connect_serial_def close_serial_def Let_def
          split: option.splits read_result.splits prod.splits)
qed

lemma producer_line_effect:
  "\<exists>new. chan (producer_line line w) = chan w @ new \<and>
         enqueued (producer_line line w) = enqueued w @ new \<and>
         cap (producer_line line w) = cap w \<and>
         dequeued (producer_line line w) = dequeued w \<and>
         delivered (producer_line line w) = delivered w \<and>
         data (producer_line line w) = data w \<and>
         failures (producer_line line w) = failures w \<and>
         socket_manager (handler (producer_line line w)) = socket_manager (handler w) \<and>
         running (handler (producer_line line w)) = running (handler w) \<and>
         length (offered w) \<le> length (offered (producer_line line w)) \<and>
         (0 < cap w \<longrightarrow> length (chan w) \<le> cap w \<longrightarrow>
            length (chan (producer_line line w)) \<le> cap w)"
  by (auto simp: producer_line_def put_def)

lemma producer_iteration_effect:
  "\<exists>new. chan (producer_iteration se w) = chan w @ new \<and>
         enqueued (producer_iteration se w) = enqueued w @ new \<and>
         cap (producer_iteration se w) = cap w \<and>
         dequeued (producer_iteration se w) = dequeued w \<and>
         delivered (producer_iteration se w) = delivered w \<and>
         data (producer_iteration se w) = data w \<and>
         failures (producer_iteration se w) = failures w \<and>
         socket_manager (handler (producer_iteration se w)) = socket_manager (handler w) \<and>
         running (handler (producer_iteration se w)) = running (handler w) \<and>
         length (offered w) \<le> length (offered (producer_iteration se w)) \<and>
         (0 < cap w \<longrightarrow> length (chan w) \<le> cap w \<longrightarrow>
            length (chan (producer_iteration se w)) \<le> cap w)"
proof -
  from producer_iteration_cases [of w se] obtain w1 where f:
    "data_queue (handler w1) = data_queue (handler w)"
    "socket_manager (handler w1) = socket_manager (handler w)"
    "running (handler w1) = running (handler w)"
    "data w1 = data w" "offered w1 = offered w" "enqueued w1 = enqueued w"
    "dequeued w1 = dequeued w" "delivered w1 = delivered w" "failures w1 = failures w"
    and c: "producer_iteration se w = w1 \<or>
            (\<exists>line. producer_iteration se w = producer_line line w1)"
    by blast
  from c show ?thesis
  proof
    assume "producer_iteration se w = w1"
    with f show ?thesis by simp
  next
    assume "\<exists>line. producer_iteration se w = producer_line line w1"
    then obtain line where "producer_iteration se w = producer_line line w1" by blast
    with producer_line_effect [of line w1] f show ?thesis by simp
  qed
qed

text \<open>One step adds to the end of the queue and takes from its head.\<close>

lemma step_fifo:
  assumes "step ev w = Some w'"
  shows "\<exists>new. dequeued w' @ chan w' = dequeued w @ chan w @ new \<and>
               enqueued w' = enqueued w @ new \<and> cap w' = cap w"
proof (cases ev)
  case (ProducerIter se)
  with assms producer_iteration_effect [of se w] show ?thesis
    by (auto split: if_splits)
next
  case ConsumerGet
  with assms show ?thesis
    by (auto simp: consumer_get_def
        split: if_splits option.splits sum.splits prod.splits dest: get_cases)
next
  case (ConsumerSend e)
  with assms show ?thesis
    by (auto simp: consumer_send_def
        split: option.splits sum.splits prod.splits outcome.splits bool.splits dest: put_cases)
qed

lemma run_fifo:
  "run evs w = Some w' \<Longrightarrow>
   \<exists>new. dequeued w' @ chan w' = dequeued w @ chan w @ new \<and>
         enqueued w' = enqueued w @ new \<and> cap w' = cap w"
proof (induction evs arbitrary: w)
  case Nil
  then show ?case by simp
next
  case (Cons ev evs)
  then obtain w1 where s: "step ev w = Some w1" and r: "run evs w1 = Some w'"
    by (auto split: option.splits)
  from step_fifo [OF s] obtain n1 where
    "dequeued w1 @ chan w1 = dequeued w @ chan w @ n1" "enqueued w1 = enqueued w @ n1"
    "cap w1 = cap w" by blast
  moreover from Cons.IH [OF r] obtain n2 where
    "dequeued w' @ chan w' = dequeued w1 @ chan w1 @ n2" "enqueued w' = enqueued w1 @ n2"
    "cap w' = cap w1" by blast
  ultimately show ?case by (intro exI [of _ "n1 @ n2"]) simp
qed

lemma step_bounded:
  assumes "step ev w = Some w'" and "length (chan w) \<le> cap w" and "0 < cap w"
  shows "length (chan w') \<le> cap w' \<and> cap w' = cap w"
proof (cases ev)
  case (ProducerIter se)
  with assms producer_iteration_effect [of se w] show ?thesis
    by (auto split: if_splits)
next
  case ConsumerGet
  with assms show ?thesis
    by (auto simp: consumer_get_def
        split: if_splits option.splits sum.splits prod.splits dest: get_cases)
next
  case (ConsumerSend e)
  with assms show ?thesis
    by (auto simp: consumer_send_def
        split: option.splits sum.splits prod.splits outcome.splits bool.splits dest: put_cases)
qed

lemma run_bounded:
  "run evs w = Some w' \<Longrightarrow> length (chan w) \<le> cap w \<Longrightarrow> 0 < cap w \<Longrightarrow>
   length (chan w') \<le> cap w' \<and> cap w' = cap w"
proof (induction evs arbitrary: w)
  case Nil
  then show ?case by simp
next
  case (Cons ev evs)
  then obtain w1 where s: "step ev w = Some w1" and r: "run evs w1 = Some w'"
    by (auto split: option.splits)
  from step_bounded [OF s Cons.prems(2,3)] Cons.IH [OF r] Cons.prems(3)
  show ?case by auto
qed






text \<open>The list of records taken from the queue only grows.\<close>

lemma step_dequeued:
  assumes "step ev w = Some w'"
  shows "\<exists>dq. dequeued w' = dequeued w @ dq"
proof (cases ev)
  case (ProducerIter se)
  with assms producer_iteration_effect [of se w] show ?thesis
    by (auto split: if_splits)
next
  case ConsumerGet
  with assms show ?thesis
    by (auto simp: consumer_get_def split: if_splits option.splits sum.splits prod.splits)
next
  case (ConsumerSend e)
  with assms show ?thesis
    by (auto simp: consumer_send_def
        split: option.splits sum.splits prod.splits outcome.splits bool.splits)
qed

lemma run_dequeued:
  "run evs w = Some w' \<Longrightarrow> \<exists>dq. dequeued w' = dequeued w @ dq"
proof (induction evs arbitrary: w)
  case Nil
  then show ?case by simp
next
  case (Cons ev evs)
  then obtain w1 where s: "step ev w = Some w1" and r: "run evs w1 = Some w'"
    by (auto split: option.splits)
  from step_dequeued [OF s] Cons.IH [OF r] show ?case by auto
qed

text \<open>With the serial port delivering lines and room on the queue, the lines go on the
  queue in order.\<close>

lemma run_lines_read:
  "running (handler w) \<Longrightarrow> \<forall>x \<in> set xs. x \<noteq> [] \<Longrightarrow>
   length (chan w) + length xs \<le> cap w \<Longrightarrow>
   \<exists>w'. run (map (\<lambda>x. ProducerIter (line_read x)) xs) w = Some w' \<and>
        chan w' = chan w @ xs \<and> cap w' = cap w \<and> dropped w' = dropped w"
proof (induction xs arbitrary: w)
  case Nil
  then show ?case by simp
next
  case (Cons x xs)
  let ?w1 = "producer_iteration (line_read x) w"
  from Cons.prems have "x \<noteq> []" "length (chan w) < cap w" by auto
  then have 1: "chan ?w1 = chan w @ [x]" "cap ?w1 = cap w" "dropped ?w1 = dropped w"
    by (auto simp: producer_iteration_def line_read_def connect_serial_def producer_line_def
        put_def Let_def split: option.splits)
  from producer_iteration_effect [of "line_read x" w] Cons.prems(1)
  have 2: "running (handler ?w1)" by auto
  from 1 Cons.prems have "\<forall>x \<in> set xs. x \<noteq> []" "length (chan ?w1) + length xs \<le> cap ?w1"
    by auto
  from Cons.IH [OF 2 this] 1 Cons.prems(1) show ?case by simp
qed



text \<open>
  C2. In every state the two loops can reach from an empty queue of capacity 1000, the
  queue holds at most 1000 records. When it holds 1000 and the producer has read a line,
  its \<^verbatim>\<open>put\<close> ends with \<^verbatim>\<open>Full\<close> (the wait of one second is over), the handler and with it
  the queue is exactly as before, and the line is dropped.
\<close>

theorem channel_bounded:
  assumes "data_queue h = Queue_init MAX_QUEUE_SIZE"
    and "run evs (world_init h) = Some w"
  shows "MAX_QUEUE_SIZE = 1000 \<and>
         length (items (data_queue (handler w))) \<le> MAX_QUEUE_SIZE \<and>
         (length (items (data_queue (handler w))) = MAX_QUEUE_SIZE \<longrightarrow> line \<noteq> [] \<longrightarrow>
            put line (data_queue (handler w)) = Inl Full \<and>
            handler (producer_line line w) = handler w \<and>
            dropped (producer_line line w) = dropped w @ [line] \<and>
            enqueued (producer_line line w) = enqueued w)"
proof -
  have "length (chan (world_init h)) \<le> cap (world_init h)" "0 < cap (world_init h)"
    using assms(1) by (simp_all add: world_init_def Queue_init_def MAX_QUEUE_SIZE_def)
  from run_bounded [OF assms(2) this]
  have b: "length (chan w) \<le> cap w" and c: "cap w = MAX_QUEUE_SIZE"
    using assms(1) by (simp_all add: world_init_def Queue_init_def)
  have "put line (data_queue (handler w)) = Inl Full"
    if "length (chan w) = MAX_QUEUE_SIZE"
    using that c by (simp add: put_def MAX_QUEUE_SIZE_def)
  then show ?thesis using b c
    by (auto simp: producer_line_def MAX_QUEUE_SIZE_def)
qed

text \<open>A thousand lines read and none taken: the queue is full and the next line is
  dropped.\<close>

theorem channel_bounded_witness:
  "\<exists>w. run (map (\<lambda>x. ProducerIter (line_read x)) (replicate 1000 ''!AIVDM''))
           (world_init (fst (start (AISHandler_init demo_config)))) = Some w \<and>
       data_queue (fst (start (AISHandler_init demo_config))) = Queue_init MAX_QUEUE_SIZE \<and>
       items (data_queue (handler w)) = replicate 1000 ''!AIVDM'' \<and>
       length (items (data_queue (handler w))) = MAX_QUEUE_SIZE \<and>
       put ''!AIVDO'' (data_queue (handler w)) = Inl Full \<and>
       handler (producer_line ''!AIVDO'' w) = handler w \<and>
       dropped (producer_line ''!AIVDO'' w) = [''!AIVDO'']"
proof -
  let ?w0 = "world_init (fst (start (AISHandler_init demo_config)))"
  have q: "data_queue (fst (start (AISHandler_init demo_config))) = Queue_init MAX_QUEUE_SIZE"
    by (simp add: AISHandler_init_def start_def)
  have "running (handler ?w0)" "\<forall>x \<in> set (replicate 1000 ''!AIVDM''). x \<noteq> []"
    "length (chan ?w0) + length (replicate 1000 ''!AIVDM'') \<le> cap ?w0"
    by (simp_all add: world_init_def AISHandler_init_def start_def Queue_init_def
        MAX_QUEUE_SIZE_def)
  from run_lines_read [OF this] obtain w where
    r: "run (map (\<lambda>x. ProducerIter (line_read x)) (replicate 1000 ''!AIVDM'')) ?w0 = Some w"
    and c: "chan w = chan ?w0 @ replicate 1000 ''!AIVDM''" and d: "dropped w = dropped ?w0"
    by blast
  from c have i: "items (data_queue (handler w)) = replicate 1000 ''!AIVDM''"
    by (simp add: world_init_def AISHandler_init_def start_def Queue_init_def)
  then have n: "length (items (data_queue (handler w))) = MAX_QUEUE_SIZE"
    by (simp add: MAX_QUEUE_SIZE_def)
  from d have e: "dropped w = []" by (simp add: world_init_def)
  from channel_bounded [OF q r, of "''!AIVDO''"] n e q r i show ?thesis
    by (intro exI [of _ w]) simp
qed

text \<open>The consumer holds a record \<open>r\<close> and \<^verbatim>\<open>send\<close> returns False for it. Then the iteration
  ends with exactly this change to the queue: if there is room, \<open>r\<close> is appended once at the
  tail and nothing is dropped; if the queue is full, the queue is unchanged, \<open>r\<close> is dropped
  and the two warnings are logged. Whatever the two loops do next, the records taken from
  the queue from then on are, in order, the records that were on it, then \<open>r\<close>, then later
  arrivals, as far as they are taken.\<close>

lemma failed_send_requeue:
  assumes "data w = Some r"
    and "send e r (socket_manager (handler w)) = (Return False, m, effs)"
    and "maxsize (data_queue (handler w)) = MAX_QUEUE_SIZE"
  shows "\<exists>w'. consumer_send e w = Some w' \<and> data w' = None \<and> delivered w' = delivered w \<and>
           dequeued w' = dequeued w \<and>
           (if length (items (data_queue (handler w))) < MAX_QUEUE_SIZE
            then items (data_queue (handler w')) = items (data_queue (handler w)) @ [r] \<and>
                 dropped w' = dropped w \<and>
                 (\<forall>evs w''. run evs w' = Some w'' \<longrightarrow>
                    (\<exists>dq more.
                       dequeued w'' = dequeued w @ dq \<and>
                       prefix dq (items (data_queue (handler w)) @ [r] @ more)))
            else items (data_queue (handler w')) = items (data_queue (handler w)) \<and>
                 dropped w' = dropped w @ [r] \<and>
                 (\<exists>more. effects w' = effects w @ effs @
                    [Logging WARNING ''Failed to send data, re-queuing'',
                     Logging WARNING ''Queue full, dropping data on send failure''] @ more))"
proof (cases "length (chan w) < MAX_QUEUE_SIZE")
  case True
  then obtain q where q: "put r (data_queue (handler w)) = Inr q"
    using assms(3) by (auto simp: put_def)
  define w' where "w' = end_iteration
     (w\<lparr>handler := (handler w)\<lparr>socket_manager := m, data_queue := q\<rparr>,
        enqueued := enqueued w @ [r], failures := failures w + 1,
        effects := effects w @ effs @ [Logging WARNING ''Failed to send data, re-queuing'']\<rparr>)"
  have cs: "consumer_send e w = Some w'"
    using assms(1,2) q by (simp add: consumer_send_def w'_def)
  have f: "data w' = None" "delivered w' = delivered w" "dequeued w' = dequeued w"
    "chan w' = chan w @ [r]" "dropped w' = dropped w"
    using put_cases(2) [OF q] by (simp_all add: w'_def)
  have "\<exists>dq more. dequeued w'' = dequeued w @ dq \<and> prefix dq (chan w @ [r] @ more)"
    if r: "run evs w' = Some w''" for evs w''
  proof -
    from run_fifo [OF r] obtain new where
      n: "dequeued w'' @ chan w'' = dequeued w' @ chan w' @ new" by blast
    from run_dequeued [OF r] obtain dq where d: "dequeued w'' = dequeued w' @ dq" by blast
    with n have e: "dq @ chan w'' = chan w' @ new" by simp
    from e f have "prefix dq (chan w @ [r] @ new)" by (metis append_assoc prefixI)
    with d f show ?thesis by auto
  qed
  with cs f True show ?thesis by auto
next
  case False
  then have q: "put r (data_queue (handler w)) = Inl Full"
    using assms(3) by (auto simp: put_def MAX_QUEUE_SIZE_def)
  with assms(1,2) False show ?thesis
    by (auto simp: consumer_send_def end_iteration_def task_done_def)
qed

text \<open>A pipeline whose manager is not connected sends nothing more: its next \<^verbatim>\<open>send\<close>
  never returns, so the consumer holds that record for ever. This is the state of a new
  pipeline, and the state a \<^verbatim>\<open>send\<close> that returned False leaves.\<close>

lemma step_never_delivers:
  assumes "step ev w = Some w'" and "\<not> connected (socket_manager (handler w))"
  shows "\<not> connected (socket_manager (handler w')) \<and> delivered w' = delivered w"
proof (cases ev)
  case (ProducerIter se)
  with assms producer_iteration_effect [of se w] show ?thesis
    by (auto split: if_splits)
next
  case ConsumerGet
  with assms show ?thesis
    by (auto simp: consumer_get_def split: if_splits option.splits sum.splits prod.splits)
next
  case (ConsumerSend e)
  with assms show ?thesis
    by (auto simp: consumer_send_def send_disconnected_blocks split: option.splits)
qed

lemma unconnected_pipeline_never_delivers:
  "run evs w = Some w' \<Longrightarrow> \<not> connected (socket_manager (handler w)) \<Longrightarrow>
   \<not> connected (socket_manager (handler w')) \<and> delivered w' = delivered w"
proof (induction evs arbitrary: w)
  case Nil
  then show ?case by simp
next
  case (Cons ev evs)
  then obtain w1 where s: "step ev w = Some w1" and r: "run evs w1 = Some w'"
    by (auto split: option.splits)
  from step_never_delivers [OF s Cons.prems(2)] Cons.IH [OF r] show ?case by simp
qed

lemma new_pipeline_never_delivers:
  "run evs (world_init (fst (start (AISHandler_init c)))) = Some w \<Longrightarrow> delivered w = []"
  using unconnected_pipeline_never_delivers [of evs "world_init (fst (start (AISHandler_init c)))" w]
  by (simp add: world_init_def start_def AISHandler_init_def SocketManager_init_def)

lemma send_False_disconnects:
  assumes "send e d s = (Return False, m, effs)"
  shows "\<not> connected m"
proof (cases "connected s")
  case False
  from send_disconnected_blocks [OF this, of e d] assms show ?thesis by simp
next
  case True
  with assms show ?thesis
    by (cases "socket_lock s")
       (auto simp: send_def send_body_def with_lock_def split: option.splits if_splits)
qed

lemma nothing_sent_after_failed_send:
  assumes "data w = Some r"
    and "send e r (socket_manager (handler w)) = (Return False, m, effs)"
    and "consumer_send e w = Some w'" and "run evs w' = Some w''"
  shows "delivered w'' = delivered w"
proof -
  from assms(1,2,3) have "socket_manager (handler w') = m" "delivered w' = delivered w"
    by (auto simp: consumer_send_def split: sum.splits)
  with send_False_disconnects [OF assms(2)]
    unconnected_pipeline_never_delivers [OF assms(4)] show ?thesis by simp
qed


section \<open>Stop\<close>

lemma stop_when_stopped: "\<not> running h \<Longrightarrow> stop e h = (Return (), h, [])"
  by (simp add: stop_def)

text \<open>While no call on the manager is in progress, \<^verbatim>\<open>stop\<close> on a running handler clears the
  flag, joins each thread that is alive with a timeout of 5 seconds, closes the serial port
  if it is open, then closes the manager, and a second \<^verbatim>\<open>stop\<close> does nothing.\<close>

lemma stop_lock_free:
  assumes "running h" and "\<not> socket_lock (socket_manager h)"
    and "SM_inv (socket_manager h)"
  shows "(case stop e h of (r, h', effs) \<Rightarrow>
            r = Return () \<and> \<not> running h' \<and>
            socket (socket_manager h') = None \<and> \<not> connected (socket_manager h') \<and>
            (case serial_port h' of None \<Rightarrow> True | Some sp \<Rightarrow> \<not> is_open sp) \<and>
            effs = Logging INFO ''Stopping AIS handler...'' # joins e h @
                   snd (close_serial (serial_close_raises e) h) @
                   snd (snd (close (socket_close_raises e) (socket_manager h))) @
                   [Logging INFO ''AIS handler stopped''] \<and>
            stop e' h' = (Return (), h', []))"
  using assms
  by (auto simp: stop_def close_serial_def joins_def close_def close_body_def with_lock_def
      SM_inv_def Let_def split: option.splits prod.splits)

lemma stop_lock_held:
  assumes "running h" and "socket_lock (socket_manager h)"
  shows "fst (stop e h) = Blocked \<and>
         socket_manager (fst (snd (stop e h))) = socket_manager h"
  using assms
  by (auto simp: stop_def close_serial_def close_def with_lock_def Let_def
      split: option.splits prod.splits)

text \<open>
  C7. The claim: \<^verbatim>\<open>stop()\<close> does nothing on a stopped pipeline; on a running one it clears
  the flag, waits for each thread for at most 5 seconds and afterwards closes the serial
  port and the connection manager. The first part holds (\<open>stop_when_stopped\<close>), and so does
  the second while no call on the manager is in progress (\<open>stop_lock_free\<close>). But take the
  pipeline as \<^verbatim>\<open>main\<close> builds it, started, after the first line has been read and taken
  from the queue: the consumer is inside \<^verbatim>\<open>send\<close>, which never returns and holds
  \<^verbatim>\<open>socket_lock\<close> (see C6). There \<^verbatim>\<open>stop()\<close> clears the flag, joins both threads, closes the
  serial port and then waits for the lock inside \<^verbatim>\<open>socket_manager.close()\<close>: it never
  returns and the manager is never closed.
\<close>

theorem stop_after_first_record_never_returns:
  "\<exists>w. run [ProducerIter (line_read ''!AIVDM''), ConsumerGet, ConsumerSend (net_up 1000)]
           (world_init (fst (start (AISHandler_init demo_config)))) = Some w \<and>
       running (handler w) \<and> data w = Some ''!AIVDM'' \<and> delivered w = [] \<and>
       socket_lock (socket_manager (handler w)) \<and>
       serial_port (handler w) = Some \<lparr> is_open = True \<rparr> \<and>
       stop threads_alive (handler w)
         = (Blocked, (handler w)\<lparr>running := False, serial_port := None\<rparr>,
            [Logging INFO ''Stopping AIS handler...'',
             ThreadJoin (Thread ''AIS-Producer'') 5, ThreadJoin (Thread ''AIS-Consumer'') 5,
             SerialClose])"
  by (simp add: model_defs)


end
